theory Spec2Isabelle
  imports Complex_Main
begin

section \<open>JavaScript values\<close>

text \<open>
  The library is untyped JavaScript, so every argument is a value of one universe.
  Numbers are only carried around by the library (never computed with), so an integer
  stands for them. A function value is opaque: it is never called by the model.
  An object is the list of its own enumerable properties in insertion order, which is the
  order \<^verbatim>\<open>Object.keys\<close> and the spread \<^verbatim>\<open>{...props}\<close> follow for string keys.
\<close>

datatype jsval =
    JUndefined
  | JNull
  | JBool bool
  | JNum int
  | JStr string
  | JFun string
  | JArr "jsval list"
  | JObj "(string \<times> jsval) list"

text \<open>The operator \<^verbatim>\<open>typeof\<close>; note \<^verbatim>\<open>typeof null === 'object'\<close>.\<close>

fun typeof :: "jsval \<Rightarrow> string" where
  "typeof JUndefined = ''undefined''"
| "typeof JNull = ''object''"
| "typeof (JBool b) = ''boolean''"
| "typeof (JNum n) = ''number''"
| "typeof (JStr s) = ''string''"
| "typeof (JFun f) = ''function''"
| "typeof (JArr xs) = ''object''"
| "typeof (JObj kvs) = ''object''"

text \<open>Truthiness, as the condition of \<^verbatim>\<open>while (nextUnitOfWork && ...)\<close> tests it.\<close>

fun truthy :: "jsval \<Rightarrow> bool" where
  "truthy JUndefined = False"
| "truthy JNull = False"
| "truthy (JBool b) = b"
| "truthy (JNum n) = (n \<noteq> 0)"
| "truthy (JStr s) = (s \<noteq> [])"
| "truthy (JFun f) = True"
| "truthy (JArr xs) = True"
| "truthy (JObj kvs) = True"

text \<open>
  Writing a property: an existing key keeps its place and takes the new value, a new key
  goes to the end.
\<close>

fun set_prop :: "string \<Rightarrow> jsval \<Rightarrow> (string \<times> jsval) list \<Rightarrow> (string \<times> jsval) list" where
  "set_prop k v [] = [(k, v)]"
| "set_prop k v ((k', v') # kvs) =
     (if k' = k then (k, v) # kvs else (k', v') # set_prop k v kvs)"

text \<open>Reading an own property of an object: \<^verbatim>\<open>undefined\<close> when the key is absent.\<close>

definition get_prop :: "(string \<times> jsval) list \<Rightarrow> string \<Rightarrow> jsval" where
  "get_prop kvs k = (case map_of kvs k of None \<Rightarrow> JUndefined | Some v \<Rightarrow> v)"

text \<open>
  The spread \<^verbatim>\<open>{...props}\<close> into a fresh object literal: \<^verbatim>\<open>null\<close> (what JSX passes
  for an element without attributes) and \<^verbatim>\<open>undefined\<close> (a call with the type only)
  contribute nothing; an object contributes its own properties, in order. The attribute
  argument is one of these: \<open>None\<close> stands for \<^verbatim>\<open>null\<close> and \<^verbatim>\<open>undefined\<close>.
\<close>

definition spread :: "(string \<times> jsval) list option \<Rightarrow> (string \<times> jsval) list" where
  "spread props =
     (case props of
        None \<Rightarrow> []
      | Some kvs \<Rightarrow> fold (\<lambda>(k, v) acc. set_prop k v acc) kvs [])"

section \<open>The element builder\<close>

text \<open>
  \<^verbatim>\<open>
  function createTextElement(text) {
      return { type: 'TEXT_ELEMENT', props: { nodeValue: text, children: [] } }
  }
  function createElement(type, props, ...children) {
      return { type,
               props: { ...props,
                        children: children.map(child =>
                            typeof child === 'object' ? child : createTextElement(child)) } }
  }
  \<close>
  \<open>wrap_child\<close> is the function mapped over the children. In the object literal the key
  \<^verbatim>\<open>children\<close> is written after the spread.
\<close>

definition createTextElement :: "jsval \<Rightarrow> jsval" where
  "createTextElement text =
     JObj [(''type'', JStr ''TEXT_ELEMENT''),
           (''props'', JObj [(''nodeValue'', text), (''children'', JArr [])])]"

definition wrap_child :: "jsval \<Rightarrow> jsval" where
  "wrap_child child = (if typeof child = ''object'' then child else createTextElement child)"

definition createElement :: "jsval \<Rightarrow> (string \<times> jsval) list option \<Rightarrow> jsval list \<Rightarrow> jsval" where
  "createElement type props children =
     JObj [(''type'', type),
           (''props'', JObj (set_prop ''children'' (JArr (map wrap_child children)) (spread props)))]"

section \<open>The shape of an Element\<close>

text \<open>
  A well-formed Element has a kind (the key \<^verbatim>\<open>type\<close>), an attribute mapping (the object
  under \<^verbatim>\<open>props\<close>, whose keys are distinct, as those of any object are) and a children
  sequence (the array under \<^verbatim>\<open>props.children\<close>) of well-formed Elements.
\<close>

lemma size_get_prop:
  "get_prop kvs k = v \<Longrightarrow> v \<noteq> JUndefined \<Longrightarrow>
   size v < Suc (size_list (size_prod (\<lambda>_. 0) size) kvs)"
  by (induction kvs) (auto simp: get_prop_def split: if_splits)

lemma size_children:
  assumes "get_prop kvs ''props'' = JObj ps"
    and "get_prop ps ''children'' = JArr cs"
  shows "size_list size cs + 2 < Suc (size_list (size_prod (\<lambda>_. 0) size) kvs)"
proof -
  have "size (JObj ps) < Suc (size_list (size_prod (\<lambda>_. 0) size) kvs)"
    using assms(1) by (rule size_get_prop) simp
  moreover have "size (JArr cs) < Suc (size_list (size_prod (\<lambda>_. 0) size) ps)"
    using assms(2) by (rule size_get_prop) simp
  ultimately show ?thesis by simp
qed

lemma size_child:
  assumes "get_prop kvs ''props'' = JObj ps"
    and "get_prop ps ''children'' = JArr cs"
    and "c \<in> set cs"
  shows "size c < Suc (size_list (size_prod (\<lambda>_. 0) size) kvs)"
proof -
  have "size c \<le> size_list size cs"
    using assms(3) by (simp add: size_list_estimation')
  with size_children [OF assms(1,2)] show ?thesis by simp
qed

function wf_element :: "jsval \<Rightarrow> bool" where
  "wf_element (JObj kvs) =
     (''type'' \<in> set (map fst kvs) \<and>
      (case get_prop kvs ''props'' of
         JObj ps \<Rightarrow>
           distinct (map fst ps) \<and>
           (case get_prop ps ''children'' of
              JArr cs \<Rightarrow> list_all wf_element cs
            | _ \<Rightarrow> False)
       | _ \<Rightarrow> False))"
| "wf_element JUndefined = False"
| "wf_element JNull = False"
| "wf_element (JBool b) = False"
| "wf_element (JNum n) = False"
| "wf_element (JStr s) = False"
| "wf_element (JFun f) = False"
| "wf_element (JArr xs) = False"
  by pat_completeness auto
termination
  by (relation "measure size") (auto intro: size_child)

text \<open>The children sequence of an Element, when the value has one.\<close>

definition element_children :: "jsval \<Rightarrow> jsval list option" where
  "element_children e =
     (case e of
        JObj kvs \<Rightarrow>
          (case get_prop kvs ''props'' of
             JObj ps \<Rightarrow> (case get_prop ps ''children'' of JArr cs \<Rightarrow> Some cs | _ \<Rightarrow> None)
           | _ \<Rightarrow> None)
      | _ \<Rightarrow> None)"

section \<open>The host document\<close>

text \<open>
  The host tree is the document the library writes to. A node is a text node (with its
  data) or a tagged node (with the value handed to \<^verbatim>\<open>document.createElement\<close>, kept
  as it was passed), the properties assigned to it by name (\<open>hprops\<close>, each name with the
  last value assigned), and its child nodes in order. The document is the plain one: it
  creates a node for every kind it is asked for, takes every assignment to a property of
  a node, and its own \<^verbatim>\<open>appendChild\<close> appends to every node.

  A node is an object of the language, and it inherits its methods. \<^verbatim>\<open>render\<close> calls
  one method of a node, \<^verbatim>\<open>appendChild\<close>, and two assignments decide what that call
  finds. After \<^verbatim>\<open>dom['appendChild'] = v\<close> the node has a property of its own that hides
  the method: the call \<^verbatim>\<open>dom.appendChild(child)\<close> calls \<open>v\<close>, a TypeError when \<open>v\<close> is
  not a function. The assignment \<^verbatim>\<open>dom['__proto__'] = v\<close> is ignored when \<open>v\<close> is
  \<^verbatim>\<open>undefined\<close>, a boolean, a number or a string, and otherwise makes \<open>v\<close> the object
  that the node inherits from: the host's methods are gone, and \<^verbatim>\<open>appendChild\<close> is what
  \<open>v\<close> has under that name (nothing, for \<^verbatim>\<open>null\<close>, an array, a function, and an object
  without such a property).

  \<^verbatim>\<open>render\<close> builds its node, fills it, and appends it to the container as its last
  step, and nothing else holds a reference to the node before that; so passing the
  container in and returning the container with the new child is the same as the mutation.
\<close>

datatype hkind = TextNode string | TagNode jsval

datatype hnode = HNode (hkind: hkind) (hprops: "(string \<times> jsval) list") (hchildren: "hnode list")

text \<open>
  \<^verbatim>\<open>document.createTextNode(data)\<close> and \<^verbatim>\<open>document.createElement(tagName)\<close>
  (\<open>createElementNode\<close>, the name \<open>createElement\<close> being the builder's), and the assignment
  \<^verbatim>\<open>dom[name] = v\<close> (\<open>set_property\<close>).
\<close>

definition createTextNode :: "string \<Rightarrow> hnode" where
  "createTextNode data = HNode (TextNode data) [] []"

definition createElementNode :: "jsval \<Rightarrow> hnode" where
  "createElementNode tagName = HNode (TagNode tagName) [] []"

fun set_property :: "string \<Rightarrow> jsval \<Rightarrow> hnode \<Rightarrow> hnode" where
  "set_property name v (HNode k ps cs) = HNode k (set_prop name v ps) cs"

text \<open>The host's own method \<^verbatim>\<open>appendChild\<close>: the child becomes the last child.\<close>

fun appendChild :: "hnode \<Rightarrow> hnode \<Rightarrow> hnode" where
  "appendChild (HNode k ps cs) child = HNode k ps (cs @ [child])"


text \<open>
  What a run of the library can end in, other than its result. \<open>TypeError\<close> is raised by
  the language, \<open>HostError\<close> stands for a failure that a host capability raises.
  \<open>CallsFunction f\<close> is not a failure of the code: it marks the point where the code calls
  the function value \<open>f\<close> (an attribute or a conversion method that the caller supplied).
  Function bodies are not part of the model, so the model follows the code no further, and
  no property below speaks of a run that ends so.
\<close>

datatype js_error = TypeError | HostError string | CallsFunction string

text \<open>
  What the call \<^verbatim>\<open>node.appendChild(child)\<close> finds: \<open>None\<close> for the host's own method,
  otherwise how the call ends.
\<close>

fun proto_appendChild :: "jsval \<Rightarrow> js_error option" where
  "proto_appendChild JUndefined = None"
| "proto_appendChild (JBool b) = None"
| "proto_appendChild (JNum n) = None"
| "proto_appendChild (JStr s) = None"
| "proto_appendChild JNull = Some TypeError"
| "proto_appendChild (JFun f) = Some TypeError"
| "proto_appendChild (JArr xs) = Some TypeError"
| "proto_appendChild (JObj kvs) =
     (case map_of kvs ''appendChild'' of
        Some (JFun f) \<Rightarrow> Some (CallsFunction f)
      | _ \<Rightarrow> Some TypeError)"

definition appendChild_lookup :: "hnode \<Rightarrow> js_error option" where
  "appendChild_lookup node =
     (case map_of (hprops node) ''appendChild'' of
        Some (JFun f) \<Rightarrow> Some (CallsFunction f)
      | Some _ \<Rightarrow> Some TypeError
      | None \<Rightarrow>
          (case map_of (hprops node) ''__proto__'' of
             None \<Rightarrow> None
           | Some v \<Rightarrow> proto_appendChild v))"

text \<open>The method call \<^verbatim>\<open>container.appendChild(dom)\<close>.\<close>

definition call_appendChild :: "hnode \<Rightarrow> hnode \<Rightarrow> js_error + hnode" where
  "call_appendChild container child =
     (case appendChild_lookup container of
        None \<Rightarrow> Inr (appendChild container child)
      | Some err \<Rightarrow> Inl err)"

section \<open>The mount entry point\<close>

text \<open>
  The loose comparison \<^verbatim>\<open>element.type == 'TEXT_ELEMENT'\<close>.

  \<open>string_is_marker v\<close> is the comparison of the string conversion of \<open>v\<close> with the marker.
  No number, boolean, \<^verbatim>\<open>null\<close>, \<^verbatim>\<open>undefined\<close> or function (its source text) converts
  to the marker. An array converts by joining the conversions of its entries with commas,
  \<^verbatim>\<open>null\<close> and \<^verbatim>\<open>undefined\<close> entries counting as empty: every entry is converted, in
  order, and only a one-entry array can give the marker. An object converts by its
  \<^verbatim>\<open>toString\<close>, then its \<^verbatim>\<open>valueOf\<close>: an own property of that name is called when it
  is a function and passed over when it is not; the inherited \<^verbatim>\<open>toString\<close> gives
  \<^verbatim>\<open>[object Object]\<close>, the inherited \<^verbatim>\<open>valueOf\<close> gives the object back, which is no
  primitive; with no primitive found the conversion raises a TypeError.

  The comparison itself converts an object operand to a primitive asking \<^verbatim>\<open>valueOf\<close>
  first and \<^verbatim>\<open>toString\<close> second; for an array and a function that comes to their
  string conversion; every other operand is compared without a conversion that could fail.
\<close>

fun string_is_marker :: "jsval \<Rightarrow> js_error + bool"
  and entries_convert :: "jsval list \<Rightarrow> js_error + bool" where
  "string_is_marker JUndefined = Inr False"
| "string_is_marker JNull = Inr False"
| "string_is_marker (JBool b) = Inr False"
| "string_is_marker (JNum n) = Inr False"
| "string_is_marker (JStr s) = Inr (s = ''TEXT_ELEMENT'')"
| "string_is_marker (JFun f) = Inr False"
| "string_is_marker (JArr []) = Inr False"
| "string_is_marker (JArr [x]) =
     (if x = JUndefined \<or> x = JNull then Inr False else string_is_marker x)"
| "string_is_marker (JArr (x # y # zs)) = entries_convert (x # y # zs)"
| "string_is_marker (JObj kvs) =
     (case map_of kvs ''toString'' of
        None \<Rightarrow> Inr False
      | Some (JFun f) \<Rightarrow> Inl (CallsFunction f)
      | Some _ \<Rightarrow>
          (case map_of kvs ''valueOf'' of
             None \<Rightarrow> Inl TypeError
           | Some (JFun g) \<Rightarrow> Inl (CallsFunction g)
           | Some _ \<Rightarrow> Inl TypeError))"
| "entries_convert [] = Inr False"
| "entries_convert (x # xs) =
     (case (if x = JUndefined \<or> x = JNull then Inr False else string_is_marker x) of
        Inl err \<Rightarrow> Inl err
      | Inr _ \<Rightarrow> entries_convert xs)"

fun is_text_type :: "jsval \<Rightarrow> js_error + bool" where
  "is_text_type (JObj kvs) =
     (case map_of kvs ''valueOf'' of
        Some (JFun g) \<Rightarrow> Inl (CallsFunction g)
      | _ \<Rightarrow>
          (case map_of kvs ''toString'' of
             None \<Rightarrow> Inr False
           | Some (JFun f) \<Rightarrow> Inl (CallsFunction f)
           | Some _ \<Rightarrow> Inl TypeError))"
| "is_text_type v = string_is_marker v"

definition isProperty :: "string \<Rightarrow> bool" where
  "isProperty key = (key \<noteq> ''children'')"

text \<open>
  \<^verbatim>\<open>
  function render(element, container) {
      const dom =
          element.type == 'TEXT_ELEMENT'
          ? document.createTextNode('')
          : document.createElement(element.type)
      const isProperty = key => key !== 'children'
      Object.keys(element.props)
          .filter(isProperty)
          .forEach(name => { dom[name] = element.props[name] })
      element.props.children.forEach(child => render(child, dom))
      container.appendChild(dom)
  }
  \<close>
  Reading a property of \<^verbatim>\<open>null\<close> or \<^verbatim>\<open>undefined\<close>, \<^verbatim>\<open>Object.keys\<close> of either,
  and calling \<^verbatim>\<open>forEach\<close> on a value that has none raise a TypeError. A value that is
  not an object has no \<^verbatim>\<open>props\<close>, and a \<^verbatim>\<open>props\<close> that is not an object has no
  \<^verbatim>\<open>children\<close>, so every shape other than the ones below ends in a TypeError, raised
  before the node is appended. A \<^verbatim>\<open>children\<close> that is an object with a function of its
  own under \<^verbatim>\<open>forEach\<close> has that function called. Whatever ends a call of
  \<^verbatim>\<open>render\<close> early ends it before its last statement: the container is then as it was.
  (\<open>domNode\<close> stands for the source's \<^verbatim>\<open>dom\<close>.)
\<close>

function render :: "jsval \<Rightarrow> hnode \<Rightarrow> js_error + hnode"
  and render_each :: "jsval list \<Rightarrow> hnode \<Rightarrow> js_error + hnode" where
  "render element container =
     (case element of
        JObj kvs \<Rightarrow>
          (case is_text_type (get_prop kvs ''type'') of
             Inl err \<Rightarrow> Inl err
           | Inr is_text \<Rightarrow>
               (let domNode = (if is_text
                               then createTextNode []
                               else createElementNode (get_prop kvs ''type''))
                in case get_prop kvs ''props'' of
                     JObj ps \<Rightarrow>
                       (let domNode = fold (\<lambda>name d. set_property name (get_prop ps name) d)
                                           (filter isProperty (map fst ps)) domNode
                        in case get_prop ps ''children'' of
                             JArr cs \<Rightarrow>
                               (case render_each cs domNode of
                                  Inl err \<Rightarrow> Inl err
                                | Inr domNode \<Rightarrow> call_appendChild container domNode)
                           | JObj m \<Rightarrow>
                               (case map_of m ''forEach'' of
                                  Some (JFun f) \<Rightarrow> Inl (CallsFunction f)
                                | _ \<Rightarrow> Inl TypeError)
                           | _ \<Rightarrow> Inl TypeError)
                   | _ \<Rightarrow> Inl TypeError))
      | _ \<Rightarrow> Inl TypeError)"
| "render_each [] domNode = Inr domNode"
| "render_each (child # rest) domNode =
     (case render child domNode of
        Inl err \<Rightarrow> Inl err
      | Inr domNode \<Rightarrow> render_each rest domNode)"
  by pat_completeness auto
termination
  by (relation "measure (\<lambda>x. case x of Inl (e, c) \<Rightarrow> size e
                                        | Inr (cs, d) \<Rightarrow> Suc (size_list size cs))")
     (auto dest: size_children)

declare render.simps [simp del]



text \<open>
  The Elements that \<^verbatim>\<open>render\<close> can mount on the plain document: in every Element of the
  tree, the comparison of the kind with the marker gives an answer (as it does for every
  kind that is a string), and no attribute is named \<^verbatim>\<open>appendChild\<close> or
  \<^verbatim>\<open>__proto__\<close>, so that the node keeps the host's method.
\<close>

function plain_element :: "jsval \<Rightarrow> bool" where
  "plain_element (JObj kvs) =
     ((case is_text_type (get_prop kvs ''type'') of Inl err \<Rightarrow> False | Inr is_text \<Rightarrow> True) \<and>
      (case get_prop kvs ''props'' of
         JObj ps \<Rightarrow>
           ''appendChild'' \<notin> set (map fst ps) \<and>
           ''__proto__'' \<notin> set (map fst ps) \<and>
           (case get_prop ps ''children'' of
              JArr cs \<Rightarrow> list_all plain_element cs
            | _ \<Rightarrow> False)
       | _ \<Rightarrow> False))"
| "plain_element JUndefined = False"
| "plain_element JNull = False"
| "plain_element (JBool b) = False"
| "plain_element (JNum n) = False"
| "plain_element (JStr s) = False"
| "plain_element (JFun f) = False"
| "plain_element (JArr xs) = False"
  by pat_completeness auto
termination
  by (relation "measure size") (auto intro: size_child)

section \<open>The scheduler\<close>

text \<open>
  The module keeps one cursor, \<^verbatim>\<open>nextUnitOfWork\<close>, and asks the host for idle time
  with \<^verbatim>\<open>requestIdleCallback(workLoop)\<close>, a one-shot registration. The state holds
  the cursor, the number of registrations the host has not yet served, and the host tree.
  The field \<open>visited\<close> is not in the source: it logs, in order, every value that
  \<^verbatim>\<open>performUnitOfWork\<close> was called on, so that "which fibers were processed" can be
  stated.
\<close>

datatype outcome = Returned | Raised js_error

record 'h sys =
  nextUnitOfWork :: jsval
  idleRequests :: nat
  visited :: "jsval list"
  host :: 'h

text \<open>
  Processing one unit of work: it is given the fiber, may change the host tree, and either
  raises or returns the next unit of work.
\<close>

type_synonym 'h unit_of_work = "jsval \<Rightarrow> 'h \<Rightarrow> (js_error + jsval) \<times> 'h"

text \<open>
  \<^verbatim>\<open>
  function performUnitOfWork(nextUnitOfWork) {
      // todo
  }
  \<close>
  The body is empty: the call returns \<^verbatim>\<open>undefined\<close> and changes nothing.
\<close>

definition performUnitOfWork :: "'h unit_of_work" where
  "performUnitOfWork fiber h = (Inr JUndefined, h)"

text \<open>
  \<^verbatim>\<open>
  function workLoop(deadline) {
      let shouldYield = false
      while (nextUnitOfWork && !shouldYield) {
          nextUnitOfWork = performUnitOfWork(nextUnitOfWork)
          shouldYield = deadline.timeRemaining() < 1
      }
      requestIdleCallback(workLoop)
  }
  \<close>
  The loop is written over the function that processes a unit, so that what it does when
  that function raises, or hands back further work, can be stated; \<open>workLoop\<close> is the
  loop at the source's \<open>performUnitOfWork\<close>. The deadline is the sequence of readings
  that the successive calls of \<^verbatim>\<open>deadline.timeRemaining()\<close> give. Over an arbitrary
  unit of work the loop need not end, and then has no result.
\<close>

partial_function (option) work_while ::
  "'h unit_of_work \<Rightarrow> (nat \<Rightarrow> real) \<Rightarrow> nat \<Rightarrow> bool \<Rightarrow> 'h sys \<Rightarrow> (outcome \<times> 'h sys) option" where
  "work_while perform timeRemaining calls shouldYield s =
     (if truthy (nextUnitOfWork s) \<and> \<not> shouldYield then
        (case perform (nextUnitOfWork s) (host s) of
           (Inl err, h) \<Rightarrow>
             Some (Raised err, s\<lparr>visited := visited s @ [nextUnitOfWork s], host := h\<rparr>)
         | (Inr next, h) \<Rightarrow>
             work_while perform timeRemaining (Suc calls) (timeRemaining calls < 1)
               (s\<lparr>nextUnitOfWork := next, visited := visited s @ [nextUnitOfWork s],
                  host := h\<rparr>))
      else Some (Returned, s))"

definition workLoop_with ::
  "'h unit_of_work \<Rightarrow> (nat \<Rightarrow> real) \<Rightarrow> 'h sys \<Rightarrow> (outcome \<times> 'h sys) option" where
  "workLoop_with perform deadline s =
     (case work_while perform deadline 0 False s of
        None \<Rightarrow> None
      | Some (Raised err, s') \<Rightarrow> Some (Raised err, s')
      | Some (Returned, s') \<Rightarrow> Some (Returned, s'\<lparr>idleRequests := Suc (idleRequests s')\<rparr>))"

definition workLoop :: "(nat \<Rightarrow> real) \<Rightarrow> 'h sys \<Rightarrow> (outcome \<times> 'h sys) option" where
  "workLoop = workLoop_with performUnitOfWork"

text \<open>
  The host serves one registration: it takes it off its list and calls the work loop with
  a fresh deadline. With no registration left it has nothing to call, and the state stays
  as it is.
\<close>

definition idle_slice_with ::
  "'h unit_of_work \<Rightarrow> (nat \<Rightarrow> real) \<Rightarrow> 'h sys \<Rightarrow> (outcome \<times> 'h sys) option" where
  "idle_slice_with perform deadline s =
     (if idleRequests s = 0 then Some (Returned, s)
      else workLoop_with perform deadline (s\<lparr>idleRequests := idleRequests s - 1\<rparr>))"

definition idle_slice :: "(nat \<Rightarrow> real) \<Rightarrow> 'h sys \<Rightarrow> (outcome \<times> 'h sys) option" where
  "idle_slice = idle_slice_with performUnitOfWork"

text \<open>Successive idle slices, one per deadline; a failure ends the run.\<close>

fun idle_slices :: "(nat \<Rightarrow> real) list \<Rightarrow> 'h sys \<Rightarrow> (outcome \<times> 'h sys) option" where
  "idle_slices [] s = Some (Returned, s)"
| "idle_slices (d # ds) s =
     (case idle_slice d s of
        None \<Rightarrow> None
      | Some (Raised err, s') \<Rightarrow> Some (Raised err, s')
      | Some (Returned, s') \<Rightarrow> idle_slices ds s')"

text \<open>
  Loading the module: \<^verbatim>\<open>let nextUnitOfWork = null\<close>, then the first
  \<^verbatim>\<open>requestIdleCallback(workLoop)\<close>.
\<close>

definition module_init :: "'h \<Rightarrow> 'h sys" where
  "module_init h = \<lparr>nextUnitOfWork = JNull, idleRequests = 1, visited = [], host = h\<rparr>"

text \<open>
  The call \<^verbatim>\<open>Didact.render(element, container)\<close> in the running program, the host
  tree being the container. \<^verbatim>\<open>render\<close> does not mention the cursor.
\<close>

definition Didact_render :: "jsval \<Rightarrow> hnode sys \<Rightarrow> outcome \<times> hnode sys" where
  "Didact_render element s =
     (case render element (host s) of
        Inl err \<Rightarrow> (Raised err, s)
      | Inr container \<Rightarrow> (Returned, s\<lparr>host := container\<rparr>))"

text \<open>The deadline of a slice that has no time left at all.\<close>

definition no_time :: "nat \<Rightarrow> real" where
  "no_time calls = 0"

text \<open>The tree \<open>div \<rightarrow> [h1 \<rightarrow> [p, a], h2]\<close>, as the element builder makes it.\<close>

definition example_tree :: jsval where
  "example_tree =
     createElement (JStr ''div'') None
       [createElement (JStr ''h1'') None
          [createElement (JStr ''p'') None [], createElement (JStr ''a'') None []],
        createElement (JStr ''h2'') None []]"

section \<open>Properties\<close>

lemma createElement_example:
  "createElement (JStr ''div'') (Some [(''id'', JStr ''foo'')])
     [createElement (JStr ''a'') None [JStr ''bar''], createElement (JStr ''b'') None []]
   = JObj [(''type'', JStr ''div''),
           (''props'', JObj [(''id'', JStr ''foo''),
              (''children'', JArr [
                 JObj [(''type'', JStr ''a''),
                       (''props'', JObj [(''children'', JArr [createTextElement (JStr ''bar'')])])],
                 JObj [(''type'', JStr ''b''), (''props'', JObj [(''children'', JArr [])])]])])]"
  by (simp add: createElement_def wrap_child_def spread_def)

subsection \<open>Objects\<close>

lemma get_prop_set_prop_same: "get_prop (set_prop k v kvs) k = v"
  by (induction kvs) (auto simp: get_prop_def)

lemma keys_set_prop: "fst ` set (set_prop k v kvs) = insert k (fst ` set kvs)"
proof (induction kvs)
  case Nil
  show ?case by simp
next
  case (Cons kv kvs)
  then show ?case by (cases kv) (auto simp: insert_commute)
qed

lemma distinct_set_prop: "distinct (map fst kvs) \<Longrightarrow> distinct (map fst (set_prop k v kvs))"
  by (induction kvs) (auto simp: keys_set_prop)

lemma distinct_fold_set_prop:
  "distinct (map fst acc) \<Longrightarrow> distinct (map fst (fold (\<lambda>(k, v) acc. set_prop k v acc) kvs acc))"
  by (induction kvs arbitrary: acc) (auto simp: distinct_set_prop)

lemma distinct_spread: "distinct (map fst (spread props))"
  by (cases props) (simp_all add: spread_def distinct_fold_set_prop)

lemma set_prop_entry:
  "(k, v') \<in> set (set_prop k v kvs) \<Longrightarrow> distinct (map fst kvs) \<Longrightarrow> v' = v"
proof (induction kvs)
  case Nil
  then show ?case by simp
next
  case (Cons kv kvs)
  then show ?case
    by (cases kv) (auto simp: rev_image_eqI split: if_splits)
qed

lemma map_of_set_prop: "map_of (set_prop k v kvs) = (map_of kvs)(k \<mapsto> v)"
  by (induction kvs) (auto simp: fun_eq_iff)

lemma map_of_assign:
  "map_of (fold (\<lambda>name a. set_prop name (f name) a) ks acc) k
     = (if k \<in> set ks then Some (f k) else map_of acc k)"
  by (induction ks arbitrary: acc) (auto simp: map_of_set_prop)

lemma get_prop_key: "k \<in> fst ` set ps \<Longrightarrow> Some (get_prop ps k) = map_of ps k"
  by (auto simp: get_prop_def split: option.splits simp: map_of_eq_None_iff)

lemma map_of_assigned_props:
  "map_of (fold (\<lambda>name a. set_prop name (get_prop ps name) a)
             (filter isProperty (map fst ps)) []) k
     = (if k = ''children'' then None else map_of ps k)"
  by (auto simp: map_of_assign isProperty_def get_prop_key map_of_eq_None_iff [symmetric])

subsection \<open>The element builder\<close>

lemma element_children_createElement:
  "element_children (createElement t props cs) = Some (map wrap_child cs)"
proof -
  have "get_prop [(''type'', t), (''props'', x)] ''props'' = x" for x
    by (simp add: get_prop_def)
  then show ?thesis
    by (simp add: element_children_def createElement_def get_prop_set_prop_same)
qed

lemma wf_createTextElement: "wf_element (createTextElement c)"
  by (simp add: createTextElement_def get_prop_def)

lemma wf_createElement:
  "list_all wf_element (map wrap_child cs) \<Longrightarrow> wf_element (createElement t props cs)"
proof -
  assume a: "list_all wf_element (map wrap_child cs)"
  have "get_prop [(''type'', t), (''props'', x)] ''props'' = x" for x
    by (simp add: get_prop_def)
  with a show ?thesis
    by (simp add: createElement_def get_prop_set_prop_same distinct_set_prop distinct_spread)
qed

lemma wf_wrap_child: "wf_element c \<or> typeof c \<noteq> ''object'' \<Longrightarrow> wf_element (wrap_child c)"
  by (auto simp: wrap_child_def wf_createTextElement)

lemma typeof_createElement: "typeof (createElement t props cs) = ''object''"
  by (simp add: createElement_def)

lemma createElement_wraps_scalar:
  assumes "i < length cs" and "typeof (cs ! i) \<noteq> ''object''"
  shows "\<exists>cs'. element_children (createElement t props cs) = Some cs' \<and>
           cs' ! i = createTextElement (cs ! i) \<and>
           createTextElement (cs ! i) =
             JObj [(''type'', JStr ''TEXT_ELEMENT''),
                   (''props'', JObj [(''nodeValue'', cs ! i), (''children'', JArr [])])]"
  using assms by (simp add: element_children_createElement wrap_child_def createTextElement_def)

text \<open>
  Claim C4: every scalar child \<open>c\<close> given to the element builder is found, at its position
  in the children sequence, as a TEXT element whose attribute \<^verbatim>\<open>nodeValue\<close> holds \<open>c\<close> and
  whose children sequence is empty.
  The builder tells a scalar from an Element by \<^verbatim>\<open>typeof child === 'object'\<close>, and
  \<^verbatim>\<open>typeof null\<close> is \<^verbatim>\<open>'object'\<close>: the scalar \<^verbatim>\<open>null\<close> is not wrapped. The call
  \<^verbatim>\<open>createElement('div', null, null)\<close> returns an Element whose children sequence is
  \<^verbatim>\<open>[null]\<close>, and \<^verbatim>\<open>render\<close> of that Element raises a TypeError when it reaches the
  child. Every child whose \<^verbatim>\<open>typeof\<close> is not \<^verbatim>\<open>'object'\<close> is wrapped
  (\<open>createElement_wraps_scalar\<close>).
\<close>

theorem createElement_null_child_unwrapped:
  "element_children (createElement (JStr ''div'') None [JNull]) = Some [JNull] \<and>
   Some [JNull] \<noteq> Some [createTextElement JNull] \<and>
   render (createElement (JStr ''div'') None [JNull]) (HNode (TagNode (JStr ''root'')) [] [])
     = Inl TypeError"
proof -
  have "render (createElement (JStr ''div'') None [JNull]) (HNode (TagNode (JStr ''root'')) [] [])
          = Inl TypeError"
    by (simp add: createElement_def spread_def wrap_child_def render.simps get_prop_def
          isProperty_def)
  then show ?thesis
    by (simp add: element_children_createElement wrap_child_def createTextElement_def)
qed

text \<open>
  Claim C5, as stated: every entry of the children sequence that the element builder
  returns is a well-formed Element, whatever mix of Elements and other values was passed.
  It fails for a child that is an object but not an Element: the array
  \<^verbatim>\<open>['a', 'b']\<close> passed as a child is placed in the children sequence as it is.
\<close>

theorem createElement_raw_object_child:
  "element_children (createElement (JStr ''ul'') None [JArr [JStr ''a'', JStr ''b'']])
     = Some [JArr [JStr ''a'', JStr ''b'']] \<and>
   \<not> wf_element (JArr [JStr ''a'', JStr ''b''])"
  by (simp add: element_children_createElement wrap_child_def)

text \<open>
  Claim C5, amended: when every child passed to the element builder is either a
  well-formed Element or a value whose \<^verbatim>\<open>typeof\<close> is not \<^verbatim>\<open>'object'\<close>, the builder
  returns a well-formed Element, and every entry of its children sequence is a well-formed
  Element: the Element children as they were, every other child as its TEXT element.
  A child that is an object or an array is never wrapped or checked: it is an entry of
  the children sequence as it is, Element or not.
\<close>

theorem createElement_children_wf:
  "(\<exists>cs'. element_children (createElement t props cs) = Some cs' \<and>
           length cs' = length cs \<and>
           (\<forall>i < length cs. (\<exists>xs. cs ! i = JArr xs) \<or> (\<exists>kvs. cs ! i = JObj kvs) \<longrightarrow>
                 cs' ! i = cs ! i) \<and>
           ((\<forall>c \<in> set cs. wf_element c \<or> typeof c \<noteq> ''object'') \<longrightarrow>
              wf_element (createElement t props cs) \<and>
              list_all wf_element cs' \<and>
              (\<forall>i < length cs. cs' ! i = (if wf_element (cs ! i) then cs ! i
                                            else createTextElement (cs ! i)))))"
proof -
  have obj: "\<forall>i < length cs. (\<exists>xs. cs ! i = JArr xs) \<or> (\<exists>kvs. cs ! i = JObj kvs) \<longrightarrow>
               map wrap_child cs ! i = cs ! i"
    by (auto simp: wrap_child_def)
  have safe: "wf_element (createElement t props cs) \<and> list_all wf_element (map wrap_child cs) \<and>
        (\<forall>i < length cs. map wrap_child cs ! i =
           (if wf_element (cs ! i) then cs ! i else createTextElement (cs ! i)))"
    if a: "\<forall>c \<in> set cs. wf_element c \<or> typeof c \<noteq> ''object''"
  proof -
    have wf: "list_all wf_element (map wrap_child cs)"
      using a by (simp add: list_all_iff wf_wrap_child)
    have "map wrap_child cs ! i = (if wf_element (cs ! i) then cs ! i else createTextElement (cs ! i))"
      if i: "i < length cs" for i
    proof (cases "wf_element (cs ! i)")
      case True
      then have "typeof (cs ! i) = ''object''" by (cases "cs ! i") auto
      with True i show ?thesis by (simp add: wrap_child_def)
    next
      case False
      with a i have "typeof (cs ! i) \<noteq> ''object''" by auto
      with False i show ?thesis by (simp add: wrap_child_def)
    qed
    with wf show ?thesis by (simp add: wf_createElement)
  qed
  from obj safe show ?thesis
    by (simp add: element_children_createElement)
qed

theorem createElement_children_wf_witness:
  "wf_element (createElement (JStr ''a'') None [JStr ''bar'']) \<and>
   typeof (JNum 7) \<noteq> ''object'' \<and>
   wf_element (createElement (JStr ''div'') (Some [(''id'', JStr ''foo'')])
                 [createElement (JStr ''a'') None [JStr ''bar''], JNum 7]) \<and>
   element_children (createElement (JStr ''div'') (Some [(''id'', JStr ''foo'')])
                 [createElement (JStr ''a'') None [JStr ''bar''], JNum 7])
     = Some [createElement (JStr ''a'') None [JStr ''bar''], createTextElement (JNum 7)]"
proof -
  let ?cs = "[createElement (JStr ''a'') None [JStr ''bar''], JNum 7]"
  have a: "wf_element (createElement (JStr ''a'') None [JStr ''bar''])"
    by (simp add: wf_createElement wf_wrap_child)
  have n: "typeof (JNum 7) \<noteq> ''object''"
    by simp
  from a n have h: "\<forall>c \<in> set ?cs. wf_element c \<or> typeof c \<noteq> ''object''"
    by simp
  from createElement_children_wf [of "JStr ''div''" "Some [(''id'', JStr ''foo'')]" ?cs] h
  have w: "wf_element (createElement (JStr ''div'') (Some [(''id'', JStr ''foo'')]) ?cs)"
    by blast
  have c: "element_children (createElement (JStr ''div'') (Some [(''id'', JStr ''foo'')]) ?cs)
             = Some [createElement (JStr ''a'') None [JStr ''bar''], createTextElement (JNum 7)]"
    by (simp add: element_children_createElement wrap_child_def typeof_createElement)
  from a n w c show ?thesis by blast
qed

text \<open>
  Claim C10: when the attribute mapping passed to the element builder has a key
  \<^verbatim>\<open>children\<close> of its own, the children of the returned Element are the wrapped
  variadic children (possibly none), and the mapping's value for the key appears nowhere
  in the returned attributes: \<^verbatim>\<open>children\<close> is written after the spread.
\<close>

theorem createElement_children_reserved:
  assumes "map_of attrs ''children'' = Some v"
  shows "\<exists>ps. createElement t (Some attrs) cs = JObj [(''type'', t), (''props'', JObj ps)] \<and>
              get_prop ps ''children'' = JArr (map wrap_child cs) \<and>
              (\<forall>v'. (''children'', v') \<in> set ps \<longrightarrow> v' = JArr (map wrap_child cs)) \<and>
              element_children (createElement t (Some attrs) cs) = Some (map wrap_child cs)"
  by (auto simp: createElement_def get_prop_set_prop_same element_children_createElement [unfolded createElement_def]
           dest: set_prop_entry [OF _ distinct_spread])

theorem createElement_children_reserved_witness:
  "map_of [(''children'', JStr ''injected''), (''id'', JStr ''x'')] ''children'' = Some (JStr ''injected'') \<and>
   createElement (JStr ''div'') (Some [(''children'', JStr ''injected''), (''id'', JStr ''x'')]) []
     = JObj [(''type'', JStr ''div''), (''props'', JObj [(''children'', JArr []), (''id'', JStr ''x'')])] \<and>
   element_children
     (createElement (JStr ''div'') (Some [(''children'', JStr ''injected''), (''id'', JStr ''x'')]) [])
     = Some []"
proof -
  have h: "map_of [(''children'', JStr ''injected''), (''id'', JStr ''x'')] ''children''
             = Some (JStr ''injected'')"
    by simp
  from createElement_children_reserved [OF h, of "JStr ''div''" "[]"]
  have "element_children
          (createElement (JStr ''div'') (Some [(''children'', JStr ''injected''), (''id'', JStr ''x'')]) [])
        = Some []"
    by auto
  then show ?thesis
    by (simp add: createElement_def spread_def)
qed

subsection \<open>Mounting\<close>

lemma render_JObj:
  "render (JObj kvs) c =
     (case is_text_type (get_prop kvs ''type'') of
        Inl err \<Rightarrow> Inl err
      | Inr is_text \<Rightarrow>
          (case get_prop kvs ''props'' of
             JObj ps \<Rightarrow>
               (case get_prop ps ''children'' of
                  JArr cs \<Rightarrow>
                    (case render_each cs
                            (fold (\<lambda>name d. set_property name (get_prop ps name) d)
                               (filter isProperty (map fst ps))
                               (if is_text then createTextNode []
                                else createElementNode (get_prop kvs ''type''))) of
                       Inl err \<Rightarrow> Inl err
                     | Inr d \<Rightarrow> call_appendChild c d)
                | JObj m \<Rightarrow>
                    (case map_of m ''forEach'' of
                       Some (JFun f) \<Rightarrow> Inl (CallsFunction f)
                     | _ \<Rightarrow> Inl TypeError)
                | _ \<Rightarrow> Inl TypeError)
           | _ \<Rightarrow> Inl TypeError))"
  by (subst render.simps) (simp add: Let_def split: jsval.splits sum.splits)

lemma render_not_object: "\<forall>kvs. e \<noteq> JObj kvs \<Longrightarrow> render e c = Inl TypeError"
  by (subst render.simps) (simp split: jsval.splits)

lemma call_appendChild_Inr:
  "call_appendChild c d = Inr c' \<Longrightarrow> c' = appendChild c d \<and> appendChild_lookup c = None"
  by (auto simp: call_appendChild_def split: option.splits)



lemma appendChild_lookup_appendChild [simp]:
  "appendChild_lookup (appendChild c n) = appendChild_lookup c"
  by (cases c) (simp add: appendChild_lookup_def split: option.splits)

lemma render_appends:
  "render e c = Inr c' \<Longrightarrow> \<exists>n. c' = appendChild c n"
  by (subst (asm) render.simps)
     (auto simp: Let_def split: jsval.splits sum.splits option.splits
           dest: call_appendChild_Inr)

lemma appendChild_sel [simp]:
  "hkind (appendChild c n) = hkind c"
  "hprops (appendChild c n) = hprops c"
  "hchildren (appendChild c n) = hchildren c @ [n]"
  by (cases c; simp)+

lemma set_property_sel [simp]:
  "hkind (set_property k v d) = hkind d"
  "hprops (set_property k v d) = set_prop k v (hprops d)"
  "hchildren (set_property k v d) = hchildren d"
  by (cases d; simp)+

lemma render_each_keeps:
  "render_each cs d = Inr d' \<Longrightarrow>
   hkind d' = hkind d \<and> hprops d' = hprops d \<and>
   (\<exists>ns. hchildren d' = hchildren d @ ns \<and> length ns = length cs)"
proof (induction cs arbitrary: d)
  case Nil
  then show ?case by simp
next
  case (Cons x xs)
  from Cons.prems obtain d1 where r: "render x d = Inr d1" and rest: "render_each xs d1 = Inr d'"
    by (auto split: sum.splits)
  from render_appends [OF r] obtain n where d1: "d1 = appendChild d n" by blast
  from Cons.IH [OF rest] d1 show ?case by auto
qed

lemma assign_props_sel:
  "hkind (fold (\<lambda>name d. set_property name (f name) d) ks d) = hkind d"
  "hprops (fold (\<lambda>name d. set_property name (f name) d) ks d)
     = fold (\<lambda>name a. set_prop name (f name) a) ks (hprops d)"
  "hchildren (fold (\<lambda>name d. set_property name (f name) d) ks d) = hchildren d"
  by (induction ks arbitrary: d; simp)+

lemma created_node_sel [simp]:
  "hprops (createTextNode s) = []" "hchildren (createTextNode s) = []" "hkind (createTextNode s) = TextNode s"
  "hprops (createElementNode t) = []" "hchildren (createElementNode t) = []" "hkind (createElementNode t) = TagNode t"
  by (simp_all add: createTextNode_def createElementNode_def)









text \<open>
  Calls that do not return: an attribute named \<^verbatim>\<open>appendChild\<close> hides the method
  that the child's \<^verbatim>\<open>render\<close> calls on the node, the attribute \<^verbatim>\<open>__proto__\<close> with
  the value \<^verbatim>\<open>null\<close> takes the method away, and a kind that is an object with a
  \<^verbatim>\<open>toString\<close> that is no function cannot be compared with the marker. Each ends in
  a TypeError, and nothing is mounted.
\<close>

lemma render_appendChild_attribute:
  "render (createElement (JStr ''div'') (Some [(''appendChild'', JNum 1)])
             [createElement (JStr ''p'') None []])
     (HNode (TagNode (JStr ''root'')) [] []) = Inl TypeError"
  by (simp add: createElement_def spread_def wrap_child_def render_JObj get_prop_def
        isProperty_def createElementNode_def call_appendChild_def appendChild_lookup_def)

lemma render_proto_attribute:
  "render (createElement (JStr ''div'') (Some [(''__proto__'', JNull)])
             [createElement (JStr ''p'') None []])
     (HNode (TagNode (JStr ''root'')) [] []) = Inl TypeError"
  by (simp add: createElement_def spread_def wrap_child_def render_JObj get_prop_def
        isProperty_def createElementNode_def call_appendChild_def appendChild_lookup_def)

lemma render_object_kind:
  "render (createElement (JObj [(''toString'', JNum 1)]) None [])
     (HNode (TagNode (JStr ''root'')) [] []) = Inl TypeError"
  by (simp add: createElement_def spread_def render_JObj get_prop_def)

text \<open>
  Claim C9: the host node that \<^verbatim>\<open>render\<close> makes for an Element is a text node when the
  Element's kind is the marker \<^verbatim>\<open>TEXT_ELEMENT\<close> and a tagged node of that kind
  otherwise; every attribute of the Element other than \<^verbatim>\<open>children\<close> is a property of
  the node, with the attribute's value, and \<^verbatim>\<open>children\<close> is not a property of the node.
\<close>

theorem render_materializes_node:
  assumes "render element container = Inr container'"
  shows "\<exists>kvs ps n is_text.
           element = JObj kvs \<and> get_prop kvs ''props'' = JObj ps \<and>
           is_text_type (get_prop kvs ''type'') = Inr is_text \<and>
           container' = appendChild container n \<and>
           hkind n = (if is_text then TextNode [] else TagNode (get_prop kvs ''type'')) \<and>
           (\<forall>tag. get_prop kvs ''type'' = JStr tag \<longrightarrow>
                  hkind n = (if tag = ''TEXT_ELEMENT'' then TextNode [] else TagNode (JStr tag))) \<and>
           (\<forall>k. map_of (hprops n) k = (if k = ''children'' then None else map_of ps k))"
proof -
  from assms obtain kvs where e: "element = JObj kvs"
    using render_not_object [of element container] by (cases element) auto
  from assms e obtain b ps cs d where
    b: "is_text_type (get_prop kvs ''type'') = Inr b" and
    ps: "get_prop kvs ''props'' = JObj ps" and
    cs: "get_prop ps ''children'' = JArr cs" and
    d: "render_each cs
          (fold (\<lambda>name d. set_property name (get_prop ps name) d)
             (filter isProperty (map fst ps))
             (if b then createTextNode [] else createElementNode (get_prop kvs ''type''))) = Inr d" and
    c': "call_appendChild container d = Inr container'"
    by (auto simp: render_JObj split: jsval.splits sum.splits option.splits)
  from render_each_keeps [OF d]
  have k: "hkind d = (if b then TextNode [] else TagNode (get_prop kvs ''type''))"
    and p: "hprops d = fold (\<lambda>name a. set_prop name (get_prop ps name) a)
                      (filter isProperty (map fst ps)) []"
    by (simp_all add: assign_props_sel)
  from call_appendChild_Inr [OF c'] have a: "container' = appendChild container d"
    by simp
  have s: "\<forall>tag. get_prop kvs ''type'' = JStr tag \<longrightarrow>
             hkind d = (if tag = ''TEXT_ELEMENT'' then TextNode [] else TagNode (JStr tag))"
    using b k by auto
  from e ps b a k s p show ?thesis
    by (intro exI [of _ kvs] exI [of _ ps] exI [of _ d] exI [of _ b])
       (simp add: map_of_assigned_props)
qed

theorem render_materializes_node_witness:
  "render (createElement (JStr ''h1'') (Some [(''title'', JStr ''foo'')]) [JStr ''Hello''])
     (HNode (TagNode (JStr ''root'')) [] [])
     = Inr (HNode (TagNode (JStr ''root'')) []
              [HNode (TagNode (JStr ''h1'')) [(''title'', JStr ''foo'')]
                 [HNode (TextNode []) [(''nodeValue'', JStr ''Hello'')] []]]) \<and>
   (\<exists>n. HNode (TagNode (JStr ''root'')) []
              [HNode (TagNode (JStr ''h1'')) [(''title'', JStr ''foo'')]
                 [HNode (TextNode []) [(''nodeValue'', JStr ''Hello'')] []]]
          = appendChild (HNode (TagNode (JStr ''root'')) [] []) n \<and>
        hkind n = TagNode (JStr ''h1'') \<and>
        map_of (hprops n) ''title'' = Some (JStr ''foo'') \<and>
        map_of (hprops n) ''children'' = None)"
proof -
  let ?e = "createElement (JStr ''h1'') (Some [(''title'', JStr ''foo'')]) [JStr ''Hello'']"
  let ?c = "HNode (TagNode (JStr ''root'')) [] []"
  let ?c' = "HNode (TagNode (JStr ''root'')) []
               [HNode (TagNode (JStr ''h1'')) [(''title'', JStr ''foo'')]
                  [HNode (TextNode []) [(''nodeValue'', JStr ''Hello'')] []]]"
  have r: "render ?e ?c = Inr ?c'"
    by (simp add: createElement_def createTextElement_def spread_def wrap_child_def render_JObj
          get_prop_def isProperty_def createTextNode_def createElementNode_def
          call_appendChild_def appendChild_lookup_def)
  from render_materializes_node [OF r] obtain kvs ps n b where
    e: "?e = JObj kvs" and
    ps: "get_prop kvs ''props'' = JObj ps" and
    c': "?c' = appendChild ?c n" and
    k: "\<forall>tag. get_prop kvs ''type'' = JStr tag \<longrightarrow>
          hkind n = (if tag = ''TEXT_ELEMENT'' then TextNode [] else TagNode (JStr tag))" and
    m: "\<forall>k. map_of (hprops n) k = (if k = ''children'' then None else map_of ps k)"
    by (elim exE conjE)
  from e have kvs: "kvs = [(''type'', JStr ''h1''),
      (''props'', JObj [(''title'', JStr ''foo''),
                        (''children'', JArr [createTextElement (JStr ''Hello'')])])]"
    by (simp add: createElement_def spread_def wrap_child_def)
  from ps kvs have ps': "ps = [(''title'', JStr ''foo''),
                               (''children'', JArr [createTextElement (JStr ''Hello'')])]"
    by (simp add: get_prop_def)
  from kvs have "get_prop kvs ''type'' = JStr ''h1''" by (simp add: get_prop_def)
  with k have "hkind n = TagNode (JStr ''h1'')" by simp
  moreover from m ps' have "map_of (hprops n) ''title'' = Some (JStr ''foo'')" by simp
  moreover from m have "map_of (hprops n) ''children'' = None" by simp
  ultimately show ?thesis using r c' by blast
qed



lemma plain_createTextElement: "plain_element (createTextElement c)"
  by (simp add: createTextElement_def get_prop_def)



lemma render_example_tree:
  "render example_tree (HNode k [] cs) =
     Inr (HNode k [] (cs @
       [HNode (TagNode (JStr ''div'')) []
          [HNode (TagNode (JStr ''h1'')) []
             [HNode (TagNode (JStr ''p'')) [] [], HNode (TagNode (JStr ''a'')) [] []],
           HNode (TagNode (JStr ''h2'')) [] []]]))"
  by (simp add: example_tree_def createElement_def spread_def wrap_child_def render_JObj
        get_prop_def isProperty_def createTextNode_def createElementNode_def
        call_appendChild_def appendChild_lookup_def)

text \<open>
  The program of \<^verbatim>\<open>index.js\<close>: the element
  \<^verbatim>\<open><div style="background: salmon"><h1>Hello world</h1></div>\<close> rendered into the
  container.
\<close>

definition index_element :: jsval where
  "index_element =
     createElement (JStr ''div'') (Some [(''style'', JStr ''background: salmon'')])
       [createElement (JStr ''h1'') None [JStr ''Hello world'']]"

lemma render_index_js:
  "render index_element (HNode k [] cs) =
     Inr (HNode k [] (cs @
       [HNode (TagNode (JStr ''div'')) [(''style'', JStr ''background: salmon'')]
          [HNode (TagNode (JStr ''h1'')) []
             [HNode (TextNode []) [(''nodeValue'', JStr ''Hello world'')] []]]]))"
  by (simp add: index_element_def createElement_def createTextElement_def spread_def
        wrap_child_def render_JObj get_prop_def isProperty_def createTextNode_def
        createElementNode_def call_appendChild_def appendChild_lookup_def)



subsection \<open>The work loop\<close>

lemmas work_while_induct = work_while.raw_induct [rotated 1, consumes 1, case_names step]

lemma work_while_idleRequests:
  "work_while perform d k sy s = Some y \<Longrightarrow> idleRequests (snd y) = idleRequests s"
proof (induction rule: work_while_induct)
  case (step work_while perform timeRemaining calls shouldYield s y)
  then show ?case
    by (auto split: if_splits prod.splits sum.splits)
qed

lemma work_while_visited:
  "work_while perform d k sy s = Some y \<Longrightarrow>
   \<exists>vs. visited (snd y) = visited s @ vs \<and>
        (truthy (nextUnitOfWork s) \<and> \<not> sy \<longrightarrow> vs \<noteq> [] \<and> hd vs = nextUnitOfWork s)"
proof (induction rule: work_while_induct)
  case (step work_while perform timeRemaining calls shouldYield s y)
  show ?case
  proof (cases "truthy (nextUnitOfWork s) \<and> \<not> shouldYield")
    case False
    with step.hyps show ?thesis by auto
  next
    case True
    obtain r h where p: "perform (nextUnitOfWork s) (host s) = (r, h)"
      by (cases "perform (nextUnitOfWork s) (host s)")
    show ?thesis
    proof (cases r)
      case (Inl err)
      with True p step.hyps show ?thesis by auto
    next
      case (Inr nxt)
      with True p step.hyps
      have "work_while perform timeRemaining (Suc calls) (timeRemaining calls < 1)
              (s\<lparr>nextUnitOfWork := nxt, visited := visited s @ [nextUnitOfWork s], host := h\<rparr>)
            = Some y"
        by simp
      from step.IH [OF this] obtain vs where
        "visited (snd y) = (visited s @ [nextUnitOfWork s]) @ vs"
        by auto
      with True show ?thesis by simp
    qed
  qed
qed

lemma work_while_raised:
  "work_while perform d k sy s = Some y \<Longrightarrow> fst y = Raised err \<Longrightarrow>
   truthy (nextUnitOfWork (snd y)) \<and>
   (\<exists>h. perform (nextUnitOfWork (snd y)) h = (Inl err, host (snd y))) \<and>
   visited (snd y) \<noteq> [] \<and> last (visited (snd y)) = nextUnitOfWork (snd y)"
proof (induction rule: work_while_induct)
  case (step work_while perform timeRemaining calls shouldYield s y)
  show ?case
  proof (cases "truthy (nextUnitOfWork s) \<and> \<not> shouldYield")
    case False
    with step.hyps step.prems show ?thesis by auto
  next
    case True
    obtain r h where p: "perform (nextUnitOfWork s) (host s) = (r, h)"
      by (cases "perform (nextUnitOfWork s) (host s)")
    show ?thesis
    proof (cases r)
      case (Inl e)
      with True p step.hyps step.prems show ?thesis by auto
    next
      case (Inr nxt)
      with True p step.hyps
      have "work_while perform timeRemaining (Suc calls) (timeRemaining calls < 1)
              (s\<lparr>nextUnitOfWork := nxt, visited := visited s @ [nextUnitOfWork s], host := h\<rparr>)
            = Some y"
        by simp
      from step.IH [OF this step.prems] show ?thesis .
    qed
  qed
qed

lemma workLoop_stub:
  "workLoop deadline s =
     Some (Returned,
       if truthy (nextUnitOfWork s)
       then s\<lparr>nextUnitOfWork := JUndefined, visited := visited s @ [nextUnitOfWork s],
              idleRequests := Suc (idleRequests s)\<rparr>
       else s\<lparr>idleRequests := Suc (idleRequests s)\<rparr>)"
  unfolding workLoop_def workLoop_with_def
  apply (subst work_while.simps)
  apply (simp add: performUnitOfWork_def)
  apply (subst work_while.simps)
  apply simp
  done

lemma idle_slice_stub:
  "idle_slice deadline s =
     Some (Returned,
       if idleRequests s = 0 then s
       else if truthy (nextUnitOfWork s)
       then s\<lparr>nextUnitOfWork := JUndefined, visited := visited s @ [nextUnitOfWork s]\<rparr>
       else s)"
  using workLoop_stub [of deadline "s\<lparr>idleRequests := idleRequests s - 1\<rparr>"]
  by (simp add: idle_slice_def idle_slice_with_def workLoop_def)

lemma idle_slices_idle:
  "\<not> truthy (nextUnitOfWork s) \<Longrightarrow> idle_slices ds s = Some (Returned, s)"
  by (induction ds) (simp_all add: idle_slice_stub)

lemma idle_slices_pending:
  "truthy (nextUnitOfWork s) \<Longrightarrow> 0 < idleRequests s \<Longrightarrow>
   idle_slices (d # ds) s =
     Some (Returned, s\<lparr>nextUnitOfWork := JUndefined, visited := visited s @ [nextUnitOfWork s]\<rparr>)"
  by (simp add: idle_slice_stub idle_slices_idle)

declare idle_slices.simps [simp del]

lemma workLoop_with_one_unit:
  assumes "truthy (nextUnitOfWork s)"
    and "perform (nextUnitOfWork s) (host s) = (Inr nxt, h)"
    and "deadline 0 < 1 \<or> \<not> truthy nxt"
  shows "workLoop_with perform deadline s =
           Some (Returned,
             s\<lparr>nextUnitOfWork := nxt, visited := visited s @ [nextUnitOfWork s], host := h,
                idleRequests := Suc (idleRequests s)\<rparr>)"
proof -
  let ?s1 = "s\<lparr>nextUnitOfWork := nxt, visited := visited s @ [nextUnitOfWork s], host := h\<rparr>"
  have "work_while perform deadline 0 False s
          = work_while perform deadline (Suc 0) (deadline 0 < 1) ?s1"
    using assms(1,2) by (subst work_while.simps) simp
  also have "\<dots> = Some (Returned, ?s1)"
  proof (cases "truthy nxt")
    case True
    with assms(3) have "deadline 0 < 1" by simp
    then show ?thesis by (subst work_while.simps) simp
  next
    case False
    then show ?thesis by (subst work_while.simps) simp
  qed
  finally show ?thesis
    by (simp add: workLoop_with_def)
qed

lemma workLoop_with_goes_on:
  assumes "truthy (nextUnitOfWork s)"
    and "perform (nextUnitOfWork s) (host s) = (Inr nxt, h)"
    and "truthy nxt" and "\<not> deadline 0 < 1"
    and "workLoop_with perform deadline s = Some (r, s')"
  shows "\<exists>rest. visited s' = visited s @ nextUnitOfWork s # nxt # rest"
proof -
  let ?s1 = "s\<lparr>nextUnitOfWork := nxt, visited := visited s @ [nextUnitOfWork s], host := h\<rparr>"
  have u: "work_while perform deadline 0 False s
          = work_while perform deadline (Suc 0) (deadline 0 < 1) ?s1"
    using assms(1,2) by (subst work_while.simps) simp
  from assms(5) obtain y where y: "work_while perform deadline 0 False s = Some y"
    and v: "visited s' = visited (snd y)"
    by (auto simp: workLoop_with_def split: option.splits outcome.splits)
  from y u have "work_while perform deadline (Suc 0) (deadline 0 < 1) ?s1 = Some y"
    by simp
  from work_while_visited [OF this] assms(3,4) obtain vs where
    "visited (snd y) = visited ?s1 @ vs" and "vs \<noteq> []" and "hd vs = nxt"
    by auto
  with v show ?thesis by (cases vs) auto
qed

text \<open>
  Claim C6: an invocation of the work loop that finds a pending fiber processes that fiber
  before it yields, whatever the deadline reports, a budget of zero on every reading
  included: the budget is read only after a unit has been processed. The source's
  \<open>performUnitOfWork\<close> is called on the pending fiber and the host tree, the cursor takes
  what it returns, and the invocation returns. Over any unit of work: when the first
  reading of the deadline is below the threshold, or the unit hands back no further work,
  the invocation returns after exactly that one unit, with the cursor at what the unit
  returned and the host tree as the unit left it; when the unit hands back further work
  and the first reading is not below the threshold, the loop goes on to that work; and
  whenever the invocation ends, what it has processed begins with the pending fiber.
\<close>

theorem workLoop_progress:
  assumes "truthy (nextUnitOfWork s)"
  shows "(\<exists>nxt h. performUnitOfWork (nextUnitOfWork s) (host s) = (Inr nxt, h) \<and>
            workLoop deadline s =
              Some (Returned,
                s\<lparr>nextUnitOfWork := nxt, visited := visited s @ [nextUnitOfWork s], host := h,
                   idleRequests := Suc (idleRequests s)\<rparr>)) \<and>
         (\<forall>perform nxt h.
            perform (nextUnitOfWork s) (host s) = (Inr nxt, h) \<and>
            (deadline 0 < 1 \<or> \<not> truthy nxt) \<longrightarrow>
            workLoop_with perform deadline s =
              Some (Returned,
                s\<lparr>nextUnitOfWork := nxt, visited := visited s @ [nextUnitOfWork s], host := h,
                   idleRequests := Suc (idleRequests s)\<rparr>)) \<and>
         (\<forall>perform nxt h r s'.
            perform (nextUnitOfWork s) (host s) = (Inr nxt, h) \<and>
            truthy nxt \<and> \<not> deadline 0 < 1 \<and>
            workLoop_with perform deadline s = Some (r, s') \<longrightarrow>
            (\<exists>rest. visited s' = visited s @ nextUnitOfWork s # nxt # rest)) \<and>
         (\<forall>perform r s'. workLoop_with perform deadline s = Some (r, s') \<longrightarrow>
               (\<exists>rest. visited s' = visited s @ nextUnitOfWork s # rest))"
proof (intro conjI allI impI)
  have p: "performUnitOfWork (nextUnitOfWork s) (host s) = (Inr JUndefined, host s)"
    by (simp add: performUnitOfWork_def)
  have "workLoop deadline s =
          Some (Returned,
            s\<lparr>nextUnitOfWork := JUndefined, visited := visited s @ [nextUnitOfWork s],
               host := host s, idleRequests := Suc (idleRequests s)\<rparr>)"
    unfolding workLoop_def
    by (rule workLoop_with_one_unit
          [where perform = performUnitOfWork and nxt = JUndefined and h = "host s",
           OF assms p]) simp
  with p show "\<exists>nxt h. performUnitOfWork (nextUnitOfWork s) (host s) = (Inr nxt, h) \<and>
            workLoop deadline s =
              Some (Returned,
                s\<lparr>nextUnitOfWork := nxt, visited := visited s @ [nextUnitOfWork s], host := h,
                   idleRequests := Suc (idleRequests s)\<rparr>)"
    by blast
next
  fix perform :: "'a unit_of_work" and nxt h
  assume "perform (nextUnitOfWork s) (host s) = (Inr nxt, h) \<and>
          (deadline 0 < 1 \<or> \<not> truthy nxt)"
  then show "workLoop_with perform deadline s =
              Some (Returned,
                s\<lparr>nextUnitOfWork := nxt, visited := visited s @ [nextUnitOfWork s], host := h,
                   idleRequests := Suc (idleRequests s)\<rparr>)"
    using workLoop_with_one_unit
            [where perform = perform and nxt = nxt and h = h and deadline = deadline,
             OF assms]
    by blast
next
  fix perform :: "'a unit_of_work" and nxt h r s'
  assume "perform (nextUnitOfWork s) (host s) = (Inr nxt, h) \<and>
          truthy nxt \<and> \<not> deadline 0 < 1 \<and>
          workLoop_with perform deadline s = Some (r, s')"
  then show "\<exists>rest. visited s' = visited s @ nextUnitOfWork s # nxt # rest"
    using workLoop_with_goes_on
            [where perform = perform and nxt = nxt and h = h and deadline = deadline
               and r = r and s' = s', OF assms]
    by blast
next
  fix perform r s'
  assume w: "workLoop_with perform deadline s = Some (r, s')"
  then obtain y where y: "work_while perform deadline 0 False s = Some y"
    and v: "visited s' = visited (snd y)"
    by (auto simp: workLoop_with_def split: option.splits outcome.splits)
  from work_while_visited [OF y] assms obtain vs where
    "visited (snd y) = visited s @ vs" and "vs \<noteq> []" and "hd vs = nextUnitOfWork s"
    by auto
  with v show "\<exists>rest. visited s' = visited s @ nextUnitOfWork s # rest"
    by (cases vs) auto
qed

theorem workLoop_progress_witness:
  "truthy (nextUnitOfWork \<lparr>nextUnitOfWork = JStr ''div'', idleRequests = 0, visited = [],
                           host = [] :: jsval list\<rparr>) \<and>
   no_time 0 < 1 \<and>
   workLoop_with (\<lambda>fiber h. (Inr (JStr ''h1''), fiber # h)) no_time
     \<lparr>nextUnitOfWork = JStr ''div'', idleRequests = 0, visited = [], host = []\<rparr>
   = Some (Returned,
       \<lparr>nextUnitOfWork = JStr ''h1'', idleRequests = 1, visited = [JStr ''div''],
        host = [JStr ''div'']\<rparr>) \<and>
   workLoop no_time
     \<lparr>nextUnitOfWork = JStr ''div'', idleRequests = 0, visited = [], host = [] :: jsval list\<rparr>
   = Some (Returned,
       \<lparr>nextUnitOfWork = JUndefined, idleRequests = 1, visited = [JStr ''div''],
        host = []\<rparr>)"
proof -
  let ?s = "\<lparr>nextUnitOfWork = JStr ''div'', idleRequests = 0, visited = [],
             host = [] :: jsval list\<rparr>"
  let ?p = "\<lambda>fiber h. (Inr (JStr ''h1''), fiber # h)"
  have h: "truthy (nextUnitOfWork ?s)" by simp
  have z: "no_time 0 < 1" by (simp add: no_time_def)
  note t = workLoop_progress [OF h, of no_time]
  from t [THEN conjunct2, THEN conjunct1, rule_format, of ?p "JStr ''h1''" "[JStr ''div'']"] z
  have a: "workLoop_with ?p no_time ?s
             = Some (Returned,
                 \<lparr>nextUnitOfWork = JStr ''h1'', idleRequests = 1, visited = [JStr ''div''],
                  host = [JStr ''div'']\<rparr>)"
    by simp
  from t [THEN conjunct1]
  have b: "workLoop no_time ?s
             = Some (Returned,
                 \<lparr>nextUnitOfWork = JUndefined, idleRequests = 1, visited = [JStr ''div''],
                  host = []\<rparr>)"
    by (auto simp: performUnitOfWork_def)
  show ?thesis using h z a b by - (intro conjI; assumption)
qed

text \<open>
  Claim C8: every return of the work loop leaves exactly one more idle registration than
  it found, whether a fiber was processed, the budget ran out, or nothing was pending; so
  a slice that served a registration ends with as many registrations as before it, and
  the work loop will be called again.
\<close>

theorem workLoop_rearms:
  "(\<exists>s'. workLoop deadline s = Some (Returned, s') \<and> idleRequests s' = Suc (idleRequests s)) \<and>
   (\<forall>perform s'. workLoop_with perform deadline s = Some (Returned, s') \<longrightarrow>
        idleRequests s' = Suc (idleRequests s)) \<and>
   (0 < idleRequests s \<longrightarrow>
      (\<exists>s'. idle_slice deadline s = Some (Returned, s') \<and> idleRequests s' = idleRequests s))"
proof (intro conjI allI impI)
  show "\<exists>s'. workLoop deadline s = Some (Returned, s') \<and> idleRequests s' = Suc (idleRequests s)"
    by (simp add: workLoop_stub)
next
  fix perform s'
  assume "workLoop_with perform deadline s = Some (Returned, s')"
  then obtain y where y: "work_while perform deadline 0 False s = Some y"
    and v: "idleRequests s' = Suc (idleRequests (snd y))"
    by (auto simp: workLoop_with_def split: option.splits outcome.splits)
  from work_while_idleRequests [OF y] v show "idleRequests s' = Suc (idleRequests s)"
    by simp
next
  assume "0 < idleRequests s"
  then show "\<exists>s'. idle_slice deadline s = Some (Returned, s') \<and> idleRequests s' = idleRequests s"
    by (simp add: idle_slice_stub)
qed

theorem workLoop_rearms_witness:
  "(\<exists>s'. workLoop no_time (module_init ()) = Some (Returned, s') \<and> idleRequests s' = 2) \<and>
   (\<exists>s'. idle_slice no_time (module_init ()) = Some (Returned, s') \<and> idleRequests s' = 1)"
  using workLoop_rearms [of no_time "module_init ()"]
  by (simp add: module_init_def numeral_2_eq_2)

text \<open>
  Claim C7: when processing a fiber raises during an invocation of the work loop, the
  invocation ends with that very failure; no idle registration is added, so with the
  served registration gone the host has nothing left to call and later slices do nothing;
  the cursor still holds the fiber whose processing raised, and the host tree is as the
  failing step left it. The source's own \<open>performUnitOfWork\<close> has an empty body and never
  raises, so this is stated of the loop over any unit of work.
\<close>

theorem workLoop_failure:
  assumes "workLoop_with perform deadline s = Some (Raised err, s')"
  shows "idleRequests s' = idleRequests s \<and>
         truthy (nextUnitOfWork s') \<and>
         (\<exists>h. perform (nextUnitOfWork s') h = (Inl err, host s')) \<and>
         visited s' \<noteq> [] \<and> last (visited s') = nextUnitOfWork s' \<and>
         (idleRequests s = 0 \<longrightarrow> (\<forall>d. idle_slice_with perform d s' = Some (Returned, s')))"
proof -
  from assms have y: "work_while perform deadline 0 False s = Some (Raised err, s')"
    by (auto simp: workLoop_with_def split: option.splits outcome.splits)
  from work_while_idleRequests [OF y] have i: "idleRequests s' = idleRequests s"
    by simp
  from work_while_raised [OF y] i show ?thesis
    by (simp add: idle_slice_with_def)
qed

theorem workLoop_failure_witness:
  "workLoop_with (\<lambda>fiber h. (Inl (HostError ''invalid attribute''), fiber # h)) no_time
     \<lparr>nextUnitOfWork = JStr ''fiber'', idleRequests = 0, visited = [], host = []\<rparr>
   = Some (Raised (HostError ''invalid attribute''),
           \<lparr>nextUnitOfWork = JStr ''fiber'', idleRequests = 0, visited = [JStr ''fiber''],
            host = [JStr ''fiber'']\<rparr>) \<and>
   idle_slice_with (\<lambda>fiber h. (Inl (HostError ''invalid attribute''), fiber # h)) no_time
     \<lparr>nextUnitOfWork = JStr ''fiber'', idleRequests = 0, visited = [JStr ''fiber''],
      host = [JStr ''fiber'']\<rparr>
   = Some (Returned,
           \<lparr>nextUnitOfWork = JStr ''fiber'', idleRequests = 0, visited = [JStr ''fiber''],
            host = [JStr ''fiber'']\<rparr>)"
proof -
  let ?p = "\<lambda>fiber h. (Inl (HostError ''invalid attribute''), fiber # h)"
  let ?s = "\<lparr>nextUnitOfWork = JStr ''fiber'', idleRequests = 0, visited = [], host = []\<rparr>"
  let ?s' = "\<lparr>nextUnitOfWork = JStr ''fiber'', idleRequests = 0, visited = [JStr ''fiber''],
              host = [JStr ''fiber'']\<rparr>"
  have w: "workLoop_with ?p no_time ?s = Some (Raised (HostError ''invalid attribute''), ?s')"
    unfolding workLoop_with_def by (subst work_while.simps) simp
  from workLoop_failure [OF w]
  have "\<forall>d. idle_slice_with ?p d ?s' = Some (Returned, ?s')"
    by simp
  with w show ?thesis by blast
qed

text \<open>
  Claim C1: for the tree \<open>div \<rightarrow> [h1 \<rightarrow> [p, a], h2]\<close>, work-loop invocations with a budget
  of one fiber each visit the fibers in the order div, h1, p, a, h2, each once.
  The code does not do so: the traversal is not written. \<^verbatim>\<open>render\<close> mounts the tree
  without setting the cursor, so five slices with no time left visit nothing; and from a
  cursor that holds a fiber for the root, the first slice processes that fiber,
  \<open>performUnitOfWork\<close> (\<^verbatim>\<open>// todo\<close>) returns \<^verbatim>\<open>undefined\<close>, and the other four slices
  visit nothing.
\<close>

theorem example_tree_not_traversed:
  "idle_slices [no_time, no_time, no_time, no_time, no_time]
     (snd (Didact_render example_tree (module_init (HNode (TagNode (JStr ''root'')) [] []))))
   = Some (Returned,
       \<lparr>nextUnitOfWork = JNull, idleRequests = 1, visited = [],
        host = HNode (TagNode (JStr ''root'')) []
          [HNode (TagNode (JStr ''div'')) []
             [HNode (TagNode (JStr ''h1'')) []
                [HNode (TagNode (JStr ''p'')) [] [], HNode (TagNode (JStr ''a'')) [] []],
              HNode (TagNode (JStr ''h2'')) [] []]]\<rparr>) \<and>
   idle_slices [no_time, no_time, no_time, no_time, no_time]
     \<lparr>nextUnitOfWork = JObj [(''element'', example_tree)], idleRequests = 1, visited = [],
      host = HNode (TagNode (JStr ''root'')) [] []\<rparr>
   = Some (Returned,
       \<lparr>nextUnitOfWork = JUndefined, idleRequests = 1,
        visited = [JObj [(''element'', example_tree)]],
        host = HNode (TagNode (JStr ''root'')) [] []\<rparr>)"
  by (simp add: idle_slices_idle idle_slices_pending Didact_render_def render_example_tree
        module_init_def)







end
